theory Spec2Isabelle
  imports Complex_Main
begin

section \<open>Python and tensor primitives used by scripts/extract.py\<close>

text \<open>
  The exceptions that \<open>run\<close> can raise on its own account. The loading of the model
  and of the FASTA file, the directory creation and \<open>torch.save\<close> are external and
  taken to succeed.
\<close>

datatype error =
    MSA_ValueError
  | AssertionError
  | Unpack_ValueError
  | IndexError
  | KeyError
  | Stack_RuntimeError

text \<open>Sequencing of fallible steps: the first exception ends the computation.\<close>

definition bind_result :: "error + 'a \<Rightarrow> ('a \<Rightarrow> error + 'b) \<Rightarrow> error + 'b" where
  "bind_result m f = (case m of Inl e \<Rightarrow> Inl e | Inr x \<Rightarrow> f x)"

text \<open>
  Tensors are nested lists, outermost axis first. A layer activation is indexed by
  [slot, position, feature], a contact map by [slot, position, position]. The tensors
  of one batch are rectangular; their entries are idealised as elements of a field,
  so the rounding of half-precision arithmetic is not represented.
\<close>

type_synonym 'a tensor1 = "'a list"
type_synonym 'a tensor2 = "'a list list"
type_synonym 'a tensor3 = "'a list list list"

text \<open>\<open>xs[i]\<close> for an index produced by \<open>enumerate\<close> (never negative).\<close>

definition index_py :: "'a list \<Rightarrow> nat \<Rightarrow> error + 'a" where
  "index_py xs i = (if i < length xs then Inr (xs ! i) else Inl IndexError)"

text \<open>
  \<open>xs[a:b]\<close>: a negative bound counts from the end, and both bounds are clamped
  to the length, so a slice never raises.
\<close>

definition slice_py :: "int \<Rightarrow> int \<Rightarrow> 'a list \<Rightarrow> 'a list" where
  "slice_py a b xs =
     (let n = int (length xs);
          lo = (if a < 0 then max 0 (a + n) else min a n);
          hi = (if b < 0 then max 0 (b + n) else min b n)
      in take (nat (hi - lo)) (drop (nat lo) xs))"

text \<open>\<open>s.split(sep)\<close> with an explicit one-character separator.\<close>

fun split_py :: "char \<Rightarrow> string \<Rightarrow> string list" where
  "split_py sep [] = [[]]"
| "split_py sep (c # cs) =
     (if c = sep then [] # split_py sep cs
      else (c # hd (split_py sep cs)) # tl (split_py sep cs))"

text \<open>\<open>a, b = parts\<close>: unpacking into exactly two names.\<close>

fun unpack2 :: "'a list \<Rightarrow> error + ('a \<times> 'a)" where
  "unpack2 [a, b] = Inr (a, b)"
| "unpack2 _ = Inl Unpack_ValueError"

text \<open>A dictionary comprehension over \<open>d.items()\<close> that keeps the keys.\<close>

fun dict_comp :: "('v \<Rightarrow> error + 'w) \<Rightarrow> ('k \<times> 'v) list \<Rightarrow> error + ('k \<times> 'w) list" where
  "dict_comp f [] = Inr []"
| "dict_comp f ((k, v) # kvs) =
     bind_result (f v) (\<lambda>w. bind_result (dict_comp f kvs) (\<lambda>r. Inr ((k, w) # r)))"

text \<open>\<open>t[i, a:b]\<close>, \<open>t[i, 0]\<close> and \<open>c[i, :k, :k]\<close>.\<close>

definition row_slice :: "'a tensor3 \<Rightarrow> nat \<Rightarrow> int \<Rightarrow> int \<Rightarrow> error + 'a tensor2" where
  "row_slice t i a b = bind_result (index_py t i) (\<lambda>row. Inr (slice_py a b row))"

definition row_first :: "'a tensor3 \<Rightarrow> nat \<Rightarrow> error + 'a tensor1" where
  "row_first t i = bind_result (index_py t i) (\<lambda>row. index_py row 0)"

definition square_slice :: "'a tensor3 \<Rightarrow> nat \<Rightarrow> int \<Rightarrow> error + 'a tensor2" where
  "square_slice c i k =
     bind_result (index_py c i) (\<lambda>m. Inr (map (slice_py 0 k) (slice_py 0 k m)))"

text \<open>
  \<open>x.mean(0)\<close> of a [position, feature] tensor. Over an empty position axis torch
  returns a vector of NaN (0/0 in every feature); \<open>None\<close> stands for that vector.
\<close>

definition mean0 :: "'a::field tensor2 \<Rightarrow> 'a tensor1 option" where
  "mean0 x =
     (if x = [] then None
      else Some (map (\<lambda>f. (\<Sum>row\<leftarrow>x. row ! f) / of_nat (length x)) [0..<length (hd x)]))"

text \<open>
  \<open>torch.stack(vs).sum(dim=0)\<close>: stacking raises on an empty list and on tensors of
  different shapes; the sum runs over the new leading axis.
\<close>

definition stack_sum :: "'a::field tensor2 list \<Rightarrow> error + 'a tensor2" where
  "stack_sum vs =
     (case vs of
        [] \<Rightarrow> Inl Stack_RuntimeError
      | v # ws \<Rightarrow>
          if list_all (\<lambda>w. map length w = map length v) ws
          then Inr (foldl (map2 (map2 (+))) v ws)
          else Inl Stack_RuntimeError)"

definition tensor2_div :: "'a::field tensor2 \<Rightarrow> nat \<Rightarrow> 'a tensor2" where
  "tensor2_div x n = map (map (\<lambda>v. v / of_nat n)) x"

section \<open>Arguments, model interface and results\<close>

datatype kind = Mean | Per_tok | Avg_per_tok | Bos | Contacts

datatype path = Path string | Joined path string

text \<open>
  The parsed arguments that \<open>run\<close> reads after loading (\<open>--include\<close> is the field
  \<open>include_arg\<close>). The model location, the FASTA file, the token budget and the GPU
  switch only reach the external loaders and the device placement.
\<close>

record args =
  output_dir :: path
  repr_layers :: "int list"
  include_arg :: "kind list"
  truncation_seq_length :: int

text \<open>
  What the external model returns for a batch: the dictionary \<open>representations\<close>
  (its items, in order) and, when asked for, \<open>contacts\<close>. The logits are not used.
\<close>

record 'a model_out =
  out_representations :: "(int \<times> 'a tensor3) list"
  out_contacts :: "'a tensor3 option"

text \<open>
  The loaded model: whether it is an MSA Transformer, its number of layers, its
  forward function (tokens, layers, return_contacts) and the conversion of one entry
  to half precision.
\<close>

record ('a, 'tok) env =
  is_MSATransformer :: bool
  num_layers :: int
  model :: "'tok \<Rightarrow> int list \<Rightarrow> bool \<Rightarrow> 'a model_out"
  to_float16 :: "'a \<Rightarrow> 'a"

text \<open>One item of the data loader: labels, sequence strings, token tensor.\<close>

type_synonym 'tok batch = "string list \<times> string list \<times> 'tok"

text \<open>
  The dictionary \<open>result\<close> saved for one sequence. A key that was not set is
  \<open>None\<close>; the keys are \<open>id\<close>, \<open>label\<close>, \<open>representations\<close>, \<open>avg_per_tok\<close>,
  \<open>mean_representations\<close>, \<open>bos_representations\<close> and \<open>contacts\<close>.
\<close>

record 'a result =
  r_id :: string
  r_label :: string
  r_representations :: "(int \<times> 'a tensor2) list option"
  r_avg_per_tok :: "'a tensor2 option"
  r_mean_representations :: "(int \<times> 'a tensor1 option) list option"
  r_bos_representations :: "(int \<times> 'a tensor1) list option"
  r_contacts :: "'a tensor2 option"

text \<open>
  The effects of the batch loop, in order: the progress line (batch ordinal and
  number of batches), the call of the model, and each \<open>torch.save\<close>.
\<close>

datatype ('a, 'tok) event =
    Processing nat nat
  | Forward 'tok "int list" bool
  | Save path "'a result"

section \<open>The function run\<close>

text \<open>Lines 85-86: the assertion on the requested layers and their resolution.\<close>

definition layer_in_range :: "int \<Rightarrow> int \<Rightarrow> bool" where
  "layer_in_range n i = (- (n + 1) \<le> i \<and> i \<le> n)"

definition resolve :: "int \<Rightarrow> int \<Rightarrow> int" where
  "resolve n i = (i + n + 1) mod (n + 1)"

definition resolve_layers :: "int \<Rightarrow> int list \<Rightarrow> error + int list" where
  "resolve_layers n ls =
     (if list_all (layer_in_range n) ls then Inr (map (resolve n) ls)
      else Inl AssertionError)"

text \<open>An optional entry of \<open>result\<close>: computed only under its guard.\<close>

definition requested :: "bool \<Rightarrow> (error + 'b) \<Rightarrow> error + 'b option" where
  "requested g m = (if g then bind_result m (\<lambda>v. Inr (Some v)) else Inr None)"

text \<open>Lines 120-123 and 125-128: the per-token slices of every layer.\<close>

definition per_tok_slices ::
  "int \<Rightarrow> nat \<Rightarrow> (int \<times> 'a tensor3) list \<Rightarrow> error + (int \<times> 'a tensor2) list" where
  "per_tok_slices truncate_len i representations =
     dict_comp (\<lambda>t. row_slice t i 1 (truncate_len + 1)) representations"

text \<open>Line 129: the stacked slices, summed and divided by \<open>len(repr_layers)\<close>.\<close>

definition avg_of_slices ::
  "int list \<Rightarrow> (int \<times> 'a::field tensor2) list \<Rightarrow> error + 'a tensor2" where
  "avg_of_slices layers tmp =
     bind_result (stack_sum (map snd tmp)) (\<lambda>s. Inr (tensor2_div s (length layers)))"

text \<open>
  Lines 112-141: the body of the loop over the labels of a batch, up to the value
  that is saved and the file it is saved to. \<open>layers\<close> is the resolved list
  \<open>repr_layers\<close>; \<open>contacts\<close> is bound exactly when \<open>return_contacts\<close> holds, so
  the pair is one optional tensor.
\<close>

definition extract_sequence ::
  "args \<Rightarrow> int list \<Rightarrow> (int \<times> 'a::field tensor3) list \<Rightarrow> 'a tensor3 option \<Rightarrow>
   string list \<Rightarrow> nat \<Rightarrow> string \<Rightarrow> error + (path \<times> 'a result)" where
  "extract_sequence a layers representations contacts strs i label =
     bind_result (unpack2 (split_py CHR '' '' label)) (\<lambda>(ident, lab).
     bind_result (index_py strs i) (\<lambda>s.
       let output_file = Joined (output_dir a) (ident @ ''_'' @ lab @ ''.pt'');
           truncate_len = min (truncation_seq_length a) (int (length s))
       in
     bind_result (requested (Per_tok \<in> set (include_arg a))
        (per_tok_slices truncate_len i representations)) (\<lambda>pt.
     bind_result (requested (Avg_per_tok \<in> set (include_arg a))
        (bind_result (per_tok_slices truncate_len i representations)
           (avg_of_slices layers))) (\<lambda>av.
     bind_result (requested (Mean \<in> set (include_arg a))
        (dict_comp (\<lambda>t. bind_result (row_slice t i 1 (truncate_len + 1))
                          (\<lambda>x. Inr (mean0 x))) representations)) (\<lambda>mn.
     bind_result (requested (Bos \<in> set (include_arg a))
        (dict_comp (\<lambda>t. row_first t i) representations)) (\<lambda>bs.
     bind_result (case contacts of
                    None \<Rightarrow> Inr None
                  | Some c \<Rightarrow> requested True (square_slice c i truncate_len)) (\<lambda>ct.
     Inr (output_file,
          \<lparr>r_id = ident, r_label = lab, r_representations = pt, r_avg_per_tok = av,
           r_mean_representations = mn, r_bos_representations = bs,
           r_contacts = ct\<rparr>))))))))"

text \<open>Lines 111-146: the loop over the labels; each result is saved at once.\<close>

fun save_loop ::
  "args \<Rightarrow> int list \<Rightarrow> (int \<times> 'a::field tensor3) list \<Rightarrow> 'a tensor3 option \<Rightarrow>
   string list \<Rightarrow> (nat \<times> string) list \<Rightarrow> ('a, 'tok) event list \<times> error option" where
  "save_loop a layers representations contacts strs [] = ([], None)"
| "save_loop a layers representations contacts strs ((i, label) # rest) =
     (case extract_sequence a layers representations contacts strs i label of
        Inl e \<Rightarrow> ([], Some e)
      | Inr (output_file, res) \<Rightarrow>
          (let (evs, err) = save_loop a layers representations contacts strs rest
           in (Save output_file res # evs, err)))"

text \<open>
  Lines 93-146: one batch inside the window. The activations are converted to half
  precision entry by entry; \<open>out["contacts"]\<close> is read only when contacts were asked
  for, and raises when the model did not return them.
\<close>

definition process_batch ::
  "args \<Rightarrow> ('a::field, 'tok) env \<Rightarrow> int list \<Rightarrow> bool \<Rightarrow> nat \<Rightarrow> nat \<Rightarrow> 'tok batch \<Rightarrow>
   ('a, 'tok) event list \<times> error option" where
  "process_batch a e layers return_contacts n_batches batch_idx b =
     (case b of (labels, strs, toks) \<Rightarrow>
        let out = model e toks layers return_contacts;
            representations =
              map (\<lambda>(layer, t). (layer, map (map (map (to_float16 e))) t))
                (out_representations out);
            pre = [Processing (batch_idx + 1) n_batches, Forward toks layers return_contacts]
        in if return_contacts \<and> out_contacts out = None then (pre, Some KeyError)
           else
             (let contacts = (if return_contacts then out_contacts out else None);
                  (evs, err) =
                    save_loop a layers representations contacts strs (enumerate 0 labels)
              in (pre @ evs, err)))"

text \<open>
  Lines 91-92: the loop over the enumerated batches with the window
  \<open>start_batch <= batch_idx < end_batch\<close>. An exception in a batch ends the run.
\<close>

fun batch_loop ::
  "nat \<Rightarrow> nat \<Rightarrow> args \<Rightarrow> ('a::field, 'tok) env \<Rightarrow> int list \<Rightarrow> bool \<Rightarrow> nat \<Rightarrow>
   (nat \<times> 'tok batch) list \<Rightarrow> ('a, 'tok) event list \<times> error option" where
  "batch_loop lo hi a e layers rc n [] = ([], None)"
| "batch_loop lo hi a e layers rc n ((batch_idx, b) # rest) =
     (if lo \<le> batch_idx \<and> batch_idx < hi then
        (case process_batch a e layers rc n batch_idx b of
           (evs, Some err) \<Rightarrow> (evs, Some err)
         | (evs, None) \<Rightarrow>
             (let (evs', err) = batch_loop lo hi a e layers rc n rest
              in (evs @ evs', err)))
      else batch_loop lo hi a e layers rc n rest)"

text \<open>Lines 88-89: the window of the script.\<close>

definition start_batch :: nat where
  "start_batch = 0"

definition end_batch :: nat where
  "end_batch = 1200"

text \<open>
  Lines 64-146. \<open>batches\<close> is what the data loader yields, in order; the result is
  the trace of the batch loop and the exception that ended the run, if any.
\<close>

definition run ::
  "args \<Rightarrow> ('a::field, 'tok) env \<Rightarrow> 'tok batch list \<Rightarrow>
   ('a, 'tok) event list \<times> error option" where
  "run a e batches =
     (if is_MSATransformer e then ([], Some MSA_ValueError)
      else
        (let return_contacts = (Contacts \<in> set (include_arg a))
         in case resolve_layers (num_layers e) (repr_layers a) of
              Inl err \<Rightarrow> ([], Some err)
            | Inr layers \<Rightarrow>
                batch_loop start_batch end_batch a e layers return_contacts
                  (length batches) (enumerate 0 batches)))"



text \<open>
  Lines 75-79: the data loader applies the batch converter, which is built from
  \<open>truncation_seq_length\<close>, to every batch of (label, sequence) pairs of the dataset.
\<close>

definition data_loader ::
  "(int \<Rightarrow> (string \<times> string) list \<Rightarrow> 'tok batch) \<Rightarrow> args \<Rightarrow> (string \<times> string) list list \<Rightarrow>
   'tok batch list" where
  "data_loader get_batch_converter a batches =
     map (get_batch_converter (truncation_seq_length a)) batches"

section \<open>A small run used to instantiate the theorems\<close>

text \<open>
  A model with one layer above the embedding and two features. The batch holds the
  sequences \<open>MKV\<close> and \<open>M\<close>, truncated to two residues: four positions per slot
  (marker, two content positions, end marker or padding).
\<close>

definition example_t0 :: "rat tensor3" where
  "example_t0 = [[[1, 1], [2, 4], [6, 8], [7, 7]], [[1, 3], [5, 7], [0, 0], [0, 0]]]"

definition example_t1 :: "rat tensor3" where
  "example_t1 = [[[5, 5], [4, 2], [2, 0], [8, 8]], [[2, 2], [3, 9], [0, 0], [0, 0]]]"

definition example_reprs :: "(int \<times> rat tensor3) list" where
  "example_reprs = [(0, example_t0), (1, example_t1)]"

definition example_contacts :: "rat tensor3" where
  "example_contacts = [[[1, 2], [2, 1]], [[1, 0], [0, 0]]]"

definition example_args :: args where
  "example_args =
     \<lparr>output_dir = Path ''out'', repr_layers = [- 1, 0],
      include_arg = [Mean, Per_tok, Avg_per_tok, Bos, Contacts],
      truncation_seq_length = 2\<rparr>"

definition example_env :: "(rat, nat list list) env" where
  "example_env =
     \<lparr>is_MSATransformer = False, num_layers = 1,
      model = (\<lambda>toks layers return_contacts.
        \<lparr>out_representations = filter (\<lambda>(layer, t). layer \<in> set layers) example_reprs,
         out_contacts = (if return_contacts then Some example_contacts else None)\<rparr>),
      to_float16 = (\<lambda>v. v)\<rparr>"

definition example_strs :: "string list" where
  "example_strs = [''MKV'', ''M'']"

definition example_batches :: "nat list list batch list" where
  "example_batches =
     [([''seq1 A'', ''seq2 B''], example_strs, [[0, 20, 15, 2], [0, 20, 2, 1]])]"

definition example_result_0 :: "rat result" where
  "example_result_0 =
     \<lparr>r_id = ''seq1'', r_label = ''A'',
      r_representations = Some [(0, [[2, 4], [6, 8]]), (1, [[4, 2], [2, 0]])],
      r_avg_per_tok = Some [[3, 3], [4, 4]],
      r_mean_representations = Some [(0, Some [4, 6]), (1, Some [3, 1])],
      r_bos_representations = Some [(0, [1, 1]), (1, [5, 5])],
      r_contacts = Some [[1, 2], [2, 1]]\<rparr>"

definition example_result_1 :: "rat result" where
  "example_result_1 =
     \<lparr>r_id = ''seq2'', r_label = ''B'',
      r_representations = Some [(0, [[5, 7]]), (1, [[3, 9]])],
      r_avg_per_tok = Some [[4, 8]],
      r_mean_representations = Some [(0, Some [5, 7]), (1, Some [3, 9])],
      r_bos_representations = Some [(0, [1, 3]), (1, [2, 2])],
      r_contacts = Some [[1]]\<rparr>"

definition example_result_0_short :: "rat result" where
  "example_result_0_short =
     \<lparr>r_id = ''seq1'', r_label = ''A'',
      r_representations = Some [(0, [[2, 4]]), (1, [[4, 2]])],
      r_avg_per_tok = Some [[3, 3]],
      r_mean_representations = Some [(0, Some [2, 4]), (1, Some [4, 2])],
      r_bos_representations = Some [(0, [1, 1]), (1, [5, 5])],
      r_contacts = Some [[1]]\<rparr>"


definition example_args_mean_bos :: args where
  "example_args_mean_bos = example_args\<lparr>repr_layers := [- 1], include_arg := [Mean, Bos]\<rparr>"

definition example_result_mean_bos :: "rat result" where
  "example_result_mean_bos =
     \<lparr>r_id = ''seq1'', r_label = ''A'', r_representations = None, r_avg_per_tok = None,
      r_mean_representations = Some [(1, Some [3, 1])],
      r_bos_representations = Some [(1, [5, 5])], r_contacts = None\<rparr>"

definition example_args_duplicate :: args where
  "example_args_duplicate =
     example_args\<lparr>repr_layers := [- 1, 1], include_arg := [Per_tok, Avg_per_tok]\<rparr>"

definition example_result_mean_bos_1 :: "rat result" where
  "example_result_mean_bos_1 =
     \<lparr>r_id = ''seq2'', r_label = ''B'', r_representations = None, r_avg_per_tok = None,
      r_mean_representations = Some [(1, Some [3, 9])],
      r_bos_representations = Some [(1, [2, 2])], r_contacts = None\<rparr>"

text \<open>
  A batch converter in the manner of the library's (marker 0, the residues up to the
  truncation length, end marker 2, padding 1), and a model whose layer 1 gives every
  position the sum of the tokens of its row, as attention lets every position depend
  on the whole row.
\<close>

definition example_tok :: "char \<Rightarrow> nat" where
  "example_tok c =
     (if c = CHR ''M'' then 20 else if c = CHR ''K'' then 15
      else if c = CHR ''V'' then 7 else 3)"

definition example_converter :: "int \<Rightarrow> (string \<times> string) list \<Rightarrow> nat list list batch" where
  "example_converter truncation raw_batch =
     (let encoded = map (\<lambda>(label, s). map example_tok
                      (if truncation = 0 then s else slice_py 0 truncation s)) raw_batch;
          max_len = fold max (map length encoded) 0
      in (map fst raw_batch, map snd raw_batch,
          map (\<lambda>enc. [0] @ enc @ [2] @ replicate (max_len - length enc) 1) encoded))"

definition example_attention_env :: "(rat, nat list list) env" where
  "example_attention_env =
     \<lparr>is_MSATransformer = False, num_layers = 1,
      model = (\<lambda>toks layers return_contacts.
        \<lparr>out_representations =
           filter (\<lambda>(layer, t). layer \<in> set layers)
             [(0, map (map (\<lambda>tok. [of_nat tok])) toks),
              (1, map (\<lambda>row. map (\<lambda>tok. [of_nat (sum_list row)]) row) toks)],
         out_contacts = None\<rparr>),
      to_float16 = (\<lambda>v. v)\<rparr>"

definition example_args_bos :: args where
  "example_args_bos =
     \<lparr>output_dir = Path ''out'', repr_layers = [- 1], include_arg = [Bos],
      truncation_seq_length = 2\<rparr>"

definition example_dataset :: "(string \<times> string) list list" where
  "example_dataset = [[(''seq1 A'', ''MKV'')]]"

section \<open>Basic facts about the primitives\<close>

lemma bind_result_Inr_iff:
  "bind_result m f = Inr y \<longleftrightarrow> (\<exists>x. m = Inr x \<and> f x = Inr y)"
  by (cases m) (simp_all add: bind_result_def)

lemma bind_result_Inl_iff:
  "bind_result m f = Inl e \<longleftrightarrow> (m = Inl e \<or> (\<exists>x. m = Inr x \<and> f x = Inl e))"
  by (cases m) (simp_all add: bind_result_def)

lemma requested_Inr_iff:
  "requested g m = Inr v \<longleftrightarrow> (if g then \<exists>x. m = Inr x \<and> v = Some x else v = None)"
  by (auto simp: requested_def bind_result_Inr_iff)

lemma dict_comp_Inr_iff:
  "dict_comp f kvs = Inr r \<longleftrightarrow>
     list_all2 (\<lambda>kv kw. fst kw = fst kv \<and> f (snd kv) = Inr (snd kw)) kvs r"
proof (induction kvs arbitrary: r)
  case Nil
  show ?case by auto
next
  case (Cons kv kvs)
  obtain k v where kv: "kv = (k, v)" by (cases kv)
  show ?case
    unfolding kv
    by (cases r) (auto simp: bind_result_Inr_iff Cons.IH)
qed

lemma extract_sequence_Inr:
  assumes "extract_sequence a layers reprs contacts strs i label = Inr (p, r)"
  obtains ident lab s where
    "unpack2 (split_py CHR '' '' label) = Inr (ident, lab)"
    "index_py strs i = Inr s"
    "p = Joined (output_dir a) (ident @ ''_'' @ lab @ ''.pt'')"
    "r_id r = ident" "r_label r = lab"
    "requested (Per_tok \<in> set (include_arg a))
        (per_tok_slices (min (truncation_seq_length a) (int (length s))) i reprs)
       = Inr (r_representations r)"
    "requested (Avg_per_tok \<in> set (include_arg a))
        (bind_result (per_tok_slices (min (truncation_seq_length a) (int (length s))) i reprs)
           (avg_of_slices layers)) = Inr (r_avg_per_tok r)"
    "requested (Mean \<in> set (include_arg a))
        (dict_comp (\<lambda>t. bind_result (row_slice t i 1 (min (truncation_seq_length a) (int (length s)) + 1))
                          (\<lambda>x. Inr (mean0 x))) reprs) = Inr (r_mean_representations r)"
    "requested (Bos \<in> set (include_arg a)) (dict_comp (\<lambda>t. row_first t i) reprs)
       = Inr (r_bos_representations r)"
    "(case contacts of None \<Rightarrow> Inr None
      | Some c \<Rightarrow> requested True (square_slice c i (min (truncation_seq_length a) (int (length s)))))
       = Inr (r_contacts r)"
  using assms
  by (auto simp: extract_sequence_def Let_def bind_result_Inr_iff split_def)

lemma index_py_Inr_iff: "index_py xs i = Inr x \<longleftrightarrow> i < length xs \<and> x = xs ! i"
  by (auto simp: index_py_def)

lemma slice_py_from_1:
  assumes "0 \<le> k" and "nat k + 1 \<le> length xs"
  shows "slice_py 1 (k + 1) xs = map (\<lambda>p. xs ! p) [1..<Suc (nat k)]"
proof -
  have "slice_py 1 (k + 1) xs = take (nat k) (drop 1 xs)"
    using assms by (simp add: slice_py_def Let_def min_def nat_add_distrib)
  also have "\<dots> = map (\<lambda>p. xs ! p) [1..<Suc (nat k)]"
    using assms by (auto simp: list_eq_iff_nth_eq simp del: upt_Suc)
  finally show ?thesis .
qed

lemma slice_py_from_0:
  assumes "0 \<le> k" and "nat k \<le> length xs"
  shows "slice_py 0 k xs = take (nat k) xs"
proof -
  have "k \<le> int (length xs)" using assms by linarith
  then show ?thesis using assms by (simp add: slice_py_def Let_def min_def)
qed

lemma row_slice_Inr_iff:
  "row_slice t i a b = Inr w \<longleftrightarrow> i < length t \<and> w = slice_py a b (t ! i)"
  by (auto simp: row_slice_def bind_result_Inr_iff index_py_Inr_iff)

lemma row_first_Inr_iff:
  "row_first t i = Inr w \<longleftrightarrow> i < length t \<and> t ! i \<noteq> [] \<and> w = t ! i ! 0"
  by (auto simp: row_first_def bind_result_Inr_iff index_py_Inr_iff)

lemma square_slice_Inr_iff:
  "square_slice c i k = Inr w \<longleftrightarrow>
     i < length c \<and> w = map (slice_py 0 k) (slice_py 0 k (c ! i))"
  by (auto simp: square_slice_def bind_result_Inr_iff index_py_Inr_iff)

lemma dict_comp_eq_map:
  assumes "dict_comp f kvs = Inr r"
    and "\<And>k v w. (k, v) \<in> set kvs \<Longrightarrow> f v = Inr w \<Longrightarrow> w = g v"
  shows "r = map (\<lambda>(k, v). (k, g v)) kvs"
  using assms
proof (induction kvs arbitrary: r)
  case Nil
  then show ?case by simp
next
  case (Cons kv kvs)
  obtain k v where kv: "kv = (k, v)" by (cases kv)
  from Cons.prems(1) obtain w r' where
    w: "f v = Inr w" and r': "dict_comp f kvs = Inr r'" and r: "r = (k, w) # r'"
    unfolding kv by (auto simp: bind_result_Inr_iff)
  have "r' = map (\<lambda>(k, v). (k, g v)) kvs"
  proof (rule Cons.IH [OF r'])
    fix k' v' w'
    assume "(k', v') \<in> set kvs" and "f v' = Inr w'"
    then show "w' = g v'" using Cons.prems(2) [of k' v' w'] by simp
  qed
  moreover have "w = g v"
    using Cons.prems(2) [of k v w] w by (simp add: kv)
  ultimately show ?case by (simp add: r kv)
qed

lemma dict_comp_post:
  assumes "dict_comp f kvs = Inr pt"
    and "dict_comp (\<lambda>t. bind_result (f t) (\<lambda>x. Inr (g x))) kvs = Inr mn"
  shows "mn = map (\<lambda>(k, x). (k, g x)) pt"
  using assms
proof (induction kvs arbitrary: pt mn)
  case Nil
  then show ?case by simp
next
  case (Cons kv kvs)
  obtain k v where kv: "kv = (k, v)" by (cases kv)
  from Cons.prems(1) obtain w pt' where
    w: "f v = Inr w" and pt': "dict_comp f kvs = Inr pt'" and pt: "pt = (k, w) # pt'"
    unfolding kv by (auto simp: bind_result_Inr_iff)
  from Cons.prems(2) w obtain mn' where
    mn': "dict_comp (\<lambda>t. bind_result (f t) (\<lambda>x. Inr (g x))) kvs = Inr mn'"
    and mn: "mn = (k, g w) # mn'"
    unfolding kv by (auto simp: bind_result_Inr_iff)
  from Cons.IH [OF pt' mn'] show ?case by (simp add: pt mn)
qed

lemma dict_comp_post_ok:
  assumes "dict_comp (\<lambda>t. bind_result (f t) (\<lambda>x. Inr (g x))) kvs = Inr mn"
  shows "\<exists>pt. dict_comp f kvs = Inr pt"
  using assms
proof (induction kvs arbitrary: mn)
  case Nil
  then show ?case by simp
next
  case (Cons kv kvs)
  obtain k v where kv: "kv = (k, v)" by (cases kv)
  from Cons.prems obtain w mn' where
    "f v = Inr w" "dict_comp (\<lambda>t. bind_result (f t) (\<lambda>x. Inr (g x))) kvs = Inr mn'"
    unfolding kv by (auto simp: bind_result_Inr_iff)
  with Cons.IH [of mn'] show ?case
    unfolding kv by (auto simp: bind_result_Inr_iff)
qed

lemma mean0_single: "mean0 [row] = Some row"
proof -
  have "mean0 [row] =
      Some (map (\<lambda>f. (\<Sum>r\<leftarrow>[row]. r ! f) / of_nat (length [row])) [0..<length (hd [row])])"
    unfolding mean0_def by (simp only: list.simps if_False)
  also have "map (\<lambda>f. (\<Sum>r\<leftarrow>[row]. r ! f) / of_nat (length [row])) [0..<length (hd [row])]
      = map (\<lambda>f. row ! f) [0..<length row]"
    by simp
  also have "\<dots> = row"
    by (rule map_nth)
  finally show ?thesis .
qed

lemma mean0_nth:
  assumes "x \<noteq> []"
  shows "\<exists>v. mean0 x = Some v \<and> length v = length (hd x) \<and>
           (\<forall>f<length v. v ! f = (\<Sum>pos<length x. x ! pos ! f) / of_nat (length x))"
proof -
  have "(\<Sum>row\<leftarrow>x. row ! f) = (\<Sum>pos<length x. x ! pos ! f)" for f
    by (auto simp: sum_list_sum_nth atLeast0LessThan intro!: sum.cong)
  then show ?thesis using assms by (simp add: mean0_def)
qed

lemma resolve_in_range:
  assumes "0 \<le> n"
  shows "0 \<le> resolve n i \<and> resolve n i \<le> n"
proof -
  have "0 < n + 1" using assms by simp
  then have "0 \<le> (i + n + 1) mod (n + 1) \<and> (i + n + 1) mod (n + 1) < n + 1"
    by (simp only: pos_mod_sign pos_mod_bound simp_thms)
  then show ?thesis by (simp add: resolve_def)
qed

lemma resolve_mod: "resolve n i = i mod (n + 1)"
proof -
  have "(i + n + 1) mod (n + 1) = (i + (n + 1)) mod (n + 1)"
    by (simp only: add.assoc)
  also have "\<dots> = i mod (n + 1)"
    by (rule mod_add_self2)
  finally show ?thesis by (simp only: resolve_def)
qed

lemma resolve_periodic: "resolve n (i - (n + 1)) = resolve n i"
proof -
  have "resolve n (i - (n + 1)) = i mod (n + 1)"
    by (simp add: resolve_def)
  then show ?thesis by (simp only: resolve_mod)
qed

lemma example_extract_0:
  "extract_sequence example_args [1, 0] example_reprs (Some example_contacts)
     example_strs 0 ''seq1 A'' =
   Inr (Joined (Path ''out'') ''seq1_A.pt'', example_result_0)"
  by code_simp

lemma example_extract_1:
  "extract_sequence example_args [1, 0] example_reprs (Some example_contacts)
     example_strs 1 ''seq2 B'' =
   Inr (Joined (Path ''out'') ''seq2_B.pt'', example_result_1)"
  by code_simp

lemma example_extract_0_short:
  "extract_sequence (example_args\<lparr>truncation_seq_length := 1\<rparr>) [1, 0] example_reprs
     (Some example_contacts) example_strs 0 ''seq1 A'' =
   Inr (Joined (Path ''out'') ''seq1_A.pt'', example_result_0_short)"
  by code_simp

section \<open>Facts about the label split and the loops\<close>







lemma save_loop_events:
  assumes "ev \<in> set (fst (save_loop a layers reprs contacts strs ils))"
  shows "\<exists>p r i label. ev = Save p r \<and> (i, label) \<in> set ils
           \<and> extract_sequence a layers reprs contacts strs i label = Inr (p, r)"
  using assms
proof (induction ils)
  case Nil
  then show ?case by simp
next
  case (Cons il ils)
  obtain i label where il: "il = (i, label)" by (cases il)
  show ?case
  proof (cases "extract_sequence a layers reprs contacts strs i label")
    case (Inl err)
    with Cons.prems show ?thesis by (simp add: il)
  next
    case (Inr pr)
    obtain p r where pr: "pr = (p, r)" by (cases pr)
    from Cons.prems have "ev = Save p r
        \<or> ev \<in> set (fst (save_loop a layers reprs contacts strs ils))"
      by (auto simp: il Inr pr split_def Let_def)
    then show ?thesis
    proof
      assume "ev = Save p r"
      then show ?thesis using Inr pr il by auto
    next
      assume "ev \<in> set (fst (save_loop a layers reprs contacts strs ils))"
      from Cons.IH [OF this] show ?thesis by auto
    qed
  qed
qed

lemma process_batch_events:
  assumes "ev \<in> set (fst (process_batch a e layers rc n b batch))"
  shows "ev = Processing (Suc b) n
         \<or> (\<exists>toks. ev = Forward toks layers rc)
         \<or> (\<exists>p r reprs contacts strs i label. ev = Save p r
               \<and> (contacts \<noteq> None \<longleftrightarrow> rc)
               \<and> extract_sequence a layers reprs contacts strs i label = Inr (p, r))"
proof -
  obtain labels strs toks where batch: "batch = (labels, strs, toks)" by (cases batch)
  define out where "out = model e toks layers rc"
  define reprs where "reprs =
     map (\<lambda>(layer, t). (layer, map (map (map (to_float16 e))) t)) (out_representations out)"
  show ?thesis
  proof (cases "rc \<and> out_contacts out = None")
    case True
    with assms show ?thesis
      by (auto simp: process_batch_def batch Let_def out_def)
  next
    case False
    define contacts where "contacts = (if rc then out_contacts out else None)"
    have c: "contacts \<noteq> None \<longleftrightarrow> rc" using False by (simp add: contacts_def)
    from assms False have "ev = Processing (Suc b) n \<or> ev = Forward toks layers rc
        \<or> ev \<in> set (fst (save_loop a layers reprs contacts strs (enumerate 0 labels)))"
      by (auto simp: process_batch_def batch Let_def out_def reprs_def contacts_def
            split_def)
    then show ?thesis
      using save_loop_events [of ev a layers reprs contacts strs "enumerate 0 labels"] c
      by blast
  qed
qed

lemma process_batch_Processing:
  "Processing (Suc b) n \<in> set (fst (process_batch a e layers rc n b batch))"
  by (cases batch) (auto simp: process_batch_def Let_def split_def)

lemma batch_loop_events:
  assumes "ev \<in> set (fst (batch_loop lo hi a e layers rc n bs))"
  shows "\<exists>b batch. (b, batch) \<in> set bs \<and> lo \<le> b \<and> b < hi
           \<and> ev \<in> set (fst (process_batch a e layers rc n b batch))"
  using assms
proof (induction bs)
  case Nil
  then show ?case by simp
next
  case (Cons x bs)
  obtain b batch where x: "x = (b, batch)" by (cases x)
  show ?case
  proof (cases "lo \<le> b \<and> b < hi")
    case False
    with Cons.prems have "ev \<in> set (fst (batch_loop lo hi a e layers rc n bs))"
      by (simp add: x)
    from Cons.IH [OF this] show ?thesis by auto
  next
    case True
    from Cons.prems True have "ev \<in> set (fst (process_batch a e layers rc n b batch))
        \<or> ev \<in> set (fst (batch_loop lo hi a e layers rc n bs))"
      by (auto simp: x split_def Let_def split: prod.splits option.splits)
    then show ?thesis
    proof
      assume "ev \<in> set (fst (process_batch a e layers rc n b batch))"
      with True show ?thesis
        by (intro exI [of _ b] exI [of _ batch]) (simp add: x)
    next
      assume "ev \<in> set (fst (batch_loop lo hi a e layers rc n bs))"
      from Cons.IH [OF this] show ?thesis by auto
    qed
  qed
qed



lemma batch_loop_Save:
  assumes "Save p r \<in> set (fst (batch_loop lo hi a e layers rc n bs))"
  shows "\<exists>reprs contacts strs i label. (contacts \<noteq> None \<longleftrightarrow> rc)
           \<and> extract_sequence a layers reprs contacts strs i label = Inr (p, r)"
proof -
  from batch_loop_events [OF assms] obtain b batch where
    "Save p r \<in> set (fst (process_batch a e layers rc n b batch))"
    by blast
  from process_batch_events [OF this] show ?thesis
    by auto
qed

lemma run_Save:
  assumes "Save p r \<in> set (fst (run a e batches))"
  shows "\<exists>layers reprs contacts strs i label.
           (contacts \<noteq> None \<longleftrightarrow> Contacts \<in> set (include_arg a))
           \<and> extract_sequence a layers reprs contacts strs i label = Inr (p, r)"
proof -
  from assms obtain ls where
    "Save p r \<in> set (fst (batch_loop start_batch end_batch a e ls
         (Contacts \<in> set (include_arg a)) (length batches) (enumerate 0 batches)))"
    by (auto simp: run_def Let_def split: if_splits sum.splits)
  from batch_loop_Save [OF this] show ?thesis by blast
qed

lemma run_Forward:
  assumes "Forward toks ls rc \<in> set (fst (run a e batches))"
  shows "rc = (Contacts \<in> set (include_arg a))"
proof -
  from assms obtain ls' where
    "Forward toks ls rc \<in> set (fst (batch_loop start_batch end_batch a e ls'
         (Contacts \<in> set (include_arg a)) (length batches) (enumerate 0 batches)))"
    by (auto simp: run_def Let_def split: if_splits sum.splits)
  from batch_loop_events [OF this] obtain b batch where
    "Forward toks ls rc \<in> set (fst (process_batch a e ls'
        (Contacts \<in> set (include_arg a)) (length batches) b batch))"
    by blast
  from process_batch_events [OF this] show ?thesis by auto
qed

lemma extract_sequence_entries:
  assumes "extract_sequence a layers reprs contacts strs i label = Inr (p, r)"
  shows "(r_representations r \<noteq> None \<longleftrightarrow> Per_tok \<in> set (include_arg a))
       \<and> (r_avg_per_tok r \<noteq> None \<longleftrightarrow> Avg_per_tok \<in> set (include_arg a))
       \<and> (r_mean_representations r \<noteq> None \<longleftrightarrow> Mean \<in> set (include_arg a))
       \<and> (r_bos_representations r \<noteq> None \<longleftrightarrow> Bos \<in> set (include_arg a))
       \<and> (r_contacts r \<noteq> None \<longleftrightarrow> contacts \<noteq> None)"
  using assms
  by (elim extract_sequence_Inr)
     (auto simp: requested_Inr_iff split: if_splits option.splits)

lemma extract_sequence_ignores_reprs:
  assumes "Per_tok \<notin> set (include_arg a)" "Avg_per_tok \<notin> set (include_arg a)"
    "Mean \<notin> set (include_arg a)" "Bos \<notin> set (include_arg a)"
  shows "extract_sequence a layers reprs contacts strs i label
       = extract_sequence a layers reprs' contacts strs i label"
  using assms by (simp add: extract_sequence_def requested_def)

lemma example_run_mean_bos:
  "run example_args_mean_bos example_env example_batches =
     ([Processing 1 1, Forward [[0, 20, 15, 2], [0, 20, 2, 1]] [1] False,
       Save (Joined (Path ''out'') ''seq1_A.pt'') example_result_mean_bos,
       Save (Joined (Path ''out'') ''seq2_B.pt'') example_result_mean_bos_1], None)"
  by code_simp











section \<open>The sum over the stacked slices\<close>

lemma tensor2_add_shape:
  assumes "map length w = map length v"
  shows "map length (map2 (map2 (+)) v w) = map length v"
proof -
  from assms have len: "length w = length v"
    by (metis length_map)
  have "length (w ! p) = length (v ! p)" if "p < length v" for p
    using assms that len by (metis nth_map)
  then show ?thesis
    using len by (auto simp: list_eq_iff_nth_eq)
qed

lemma tensor2_add_nth:
  assumes "map length w = map length v" and "p < length v" and "f < length (v ! p)"
  shows "map2 (map2 (+)) v w ! p ! f = v ! p ! f + w ! p ! f"
proof -
  from assms(1) have len: "length w = length v"
    by (metis length_map)
  have "length (w ! p) = length (v ! p)"
    using assms(1,2) len by (metis nth_map)
  then show ?thesis
    using assms(2,3) len by simp
qed

lemma foldl_tensor2_add:
  fixes v :: "'a::field tensor2"
  assumes "list_all (\<lambda>w. map length w = map length v) ws"
  shows "map length (foldl (map2 (map2 (+))) v ws) = map length v
       \<and> (\<forall>p<length v. \<forall>f<length (v ! p).
            foldl (map2 (map2 (+))) v ws ! p ! f = v ! p ! f + (\<Sum>w\<leftarrow>ws. w ! p ! f))"
  using assms
proof (induction ws arbitrary: v)
  case Nil
  show ?case by simp
next
  case (Cons w ws)
  let ?u = "map2 (map2 (+)) v w"
  from Cons.prems have w: "map length w = map length v"
    and ws: "list_all (\<lambda>x. map length x = map length v) ws"
    by simp_all
  have shape: "map length ?u = map length v"
    by (rule tensor2_add_shape [OF w])
  have ws': "list_all (\<lambda>x. map length x = map length ?u) ws"
    using ws by (simp only: shape)
  note IH = Cons.IH [OF ws']
  have len: "length ?u = length v"
    using shape by (metis length_map)
  have rowlen: "length (?u ! p) = length (v ! p)" if "p < length v" for p
    using shape that len by (metis nth_map)
  have "foldl (map2 (map2 (+))) v (w # ws) ! p ! f
          = v ! p ! f + (\<Sum>x\<leftarrow>w # ws. x ! p ! f)"
    if p: "p < length v" and f: "f < length (v ! p)" for p f
  proof -
    have "foldl (map2 (map2 (+))) ?u ws ! p ! f = ?u ! p ! f + (\<Sum>x\<leftarrow>ws. x ! p ! f)"
      using IH p f len rowlen [OF p] by simp
    also have "?u ! p ! f = v ! p ! f + w ! p ! f"
      by (rule tensor2_add_nth [OF w p f])
    finally show ?thesis by (simp add: add.assoc)
  qed
  moreover have "map length (foldl (map2 (map2 (+))) v (w # ws)) = map length v"
    using IH shape by simp
  ultimately show ?case by blast
qed

lemma stack_sum_entries:
  fixes vs :: "'a::field tensor2 list"
  assumes "stack_sum vs = Inr s"
  shows "vs \<noteq> [] \<and> map length s = map length (hd vs)
       \<and> (\<forall>p<length s. \<forall>f<length (s ! p). s ! p ! f = (\<Sum>v\<leftarrow>vs. v ! p ! f))"
proof (cases vs)
  case Nil
  with assms show ?thesis by (simp add: stack_sum_def)
next
  case (Cons v ws)
  with assms have shapes: "list_all (\<lambda>w. map length w = map length v) ws"
    and s: "s = foldl (map2 (map2 (+))) v ws"
    by (auto simp: stack_sum_def split: if_splits)
  note f = foldl_tensor2_add [OF shapes]
  from f have shape: "map length s = map length v" by (simp add: s)
  then have len: "length s = length v" by (metis length_map)
  have rowlen: "length (s ! p) = length (v ! p)" if "p < length v" for p
    using shape that len by (metis nth_map)
  have "s ! p ! f = (\<Sum>x\<leftarrow>vs. x ! p ! f)" if "p < length s" "f < length (s ! p)" for p f
    using f that len rowlen by (simp add: s Cons)
  with shape show ?thesis by (simp add: Cons)
qed

lemma avg_per_tok_entries:
  fixes r :: "'a::field result"
  assumes ok: "extract_sequence a layers reprs contacts strs i label = Inr (p, r)"
    and req: "Avg_per_tok \<in> set (include_arg a)"
    and k: "k = min (truncation_seq_length a) (int (length (strs ! i)))"
  shows "\<exists>pt av. per_tok_slices k i reprs = Inr pt \<and> pt \<noteq> []
           \<and> r_avg_per_tok r = Some av
           \<and> map length av = map length (snd (hd pt))
           \<and> (\<forall>pos<length av. \<forall>f<length (av ! pos).
                 av ! pos ! f = (\<Sum>(layer, x)\<leftarrow>pt. x ! pos ! f) / of_nat (length layers))"
proof -
  from ok obtain s where s: "index_py strs i = Inr s"
    and av: "requested (Avg_per_tok \<in> set (include_arg a))
        (bind_result (per_tok_slices (min (truncation_seq_length a) (int (length s))) i reprs)
           (avg_of_slices layers)) = Inr (r_avg_per_tok r)"
    by (rule extract_sequence_Inr)
  from s have k': "min (truncation_seq_length a) (int (length s)) = k"
    by (simp add: index_py_Inr_iff k)
  from av req obtain pt su where pt: "per_tok_slices k i reprs = Inr pt"
    and su: "stack_sum (map snd pt) = Inr su"
    and r: "r_avg_per_tok r = Some (tensor2_div su (length layers))"
    by (auto simp: requested_Inr_iff bind_result_Inr_iff avg_of_slices_def k')
  note e = stack_sum_entries [OF su]
  from e have ne: "pt \<noteq> []" by simp
  have "map length (tensor2_div su (length layers)) = map length su"
    by (simp add: tensor2_div_def)
  with e ne have shape:
    "map length (tensor2_div su (length layers)) = map length (snd (hd pt))"
    by (simp add: hd_map)
  have sum_eq: "(\<Sum>v\<leftarrow>map snd pt. v ! pos ! f) = (\<Sum>(layer, x)\<leftarrow>pt. x ! pos ! f)" for pos f
    by (simp add: split_def o_def)
  have entries: "tensor2_div su (length layers) ! pos ! f
        = (\<Sum>(layer, x)\<leftarrow>pt. x ! pos ! f) / of_nat (length layers)"
    if "pos < length (tensor2_div su (length layers))"
      "f < length (tensor2_div su (length layers) ! pos)" for pos f
    using that e sum_eq [of pos f] by (simp add: tensor2_div_def)
  from pt ne r shape entries show ?thesis by blast
qed

section \<open>Layer index resolution\<close>

text \<open>
  C4: for a model with \<open>n\<close> layers and requested indices in the inclusive range
  from \<open>-(n+1)\<close> to \<open>n\<close>, every index \<open>i\<close> is resolved to
  \<open>(i + n + 1) mod (n + 1)\<close>, the resolved index lies between 0 and \<open>n\<close>, and
  \<open>resolve i = resolve (i - (n+1))\<close>; with 33 layers, -1 resolves to 33 and 0 to 0.
\<close>

theorem layer_index_resolution:
  assumes "0 \<le> n" and "list_all (layer_in_range n) ls"
  shows "resolve_layers n ls = Inr (map (\<lambda>i. (i + n + 1) mod (n + 1)) ls)
         \<and> (\<forall>i \<in> set ls. 0 \<le> resolve n i \<and> resolve n i \<le> n
               \<and> resolve n i = resolve n (i - (n + 1))
               \<and> (0 \<le> i \<longrightarrow> resolve n i = i)
               \<and> (- (n + 1) < i \<and> i < 0 \<longrightarrow> resolve n i = i + n + 1))
         \<and> resolve_layers 33 [- 1] = Inr [33]
         \<and> resolve_layers 33 [0] = Inr [0]"
proof -
  have a: "resolve_layers n ls = Inr (map (\<lambda>i. (i + n + 1) mod (n + 1)) ls)"
    using assms(2) by (simp add: resolve_layers_def resolve_def)
  have b: "0 \<le> resolve n i \<and> resolve n i \<le> n \<and> resolve n i = resolve n (i - (n + 1))"
    for i
    using resolve_in_range [OF assms(1)] resolve_periodic by simp
  have c: "0 \<le> i \<longrightarrow> resolve n i = i" if "i \<in> set ls" for i
  proof -
    from that assms(2) have "i \<le> n" by (simp add: list_all_iff layer_in_range_def)
    then show ?thesis by (simp add: resolve_mod)
  qed
  have d: "- (n + 1) < i \<and> i < 0 \<longrightarrow> resolve n i = i + n + 1" for i
    by (simp add: resolve_def)
  have e: "resolve_layers 33 [- 1] = Inr [33]" "resolve_layers 33 [0] = Inr [0]"
    by (simp_all add: resolve_layers_def resolve_def layer_in_range_def)
  show ?thesis using a b c d e by blast
qed

theorem layer_index_resolution_witness:
  "(0::int) \<le> 33 \<and> list_all (layer_in_range 33) [- 34, - 1, 0, 33]
   \<and> resolve_layers 33 [- 34, - 1, 0, 33] = Inr [0, 33, 0, 33]"
proof -
  have n: "(0::int) \<le> 33" by simp
  have r: "list_all (layer_in_range 33) [- 34, - 1, 0, 33]"
    by (simp add: layer_in_range_def)
  from layer_index_resolution [OF n r]
  have "resolve_layers 33 [- 34, - 1, 0, 33] =
          Inr (map (\<lambda>i. (i + 33 + 1) mod (33 + 1)) [- 34, - 1, 0, 33])"
    by (rule conjunct1)
  then show ?thesis using n r by simp
qed

section \<open>Validation before the batch loop\<close>

text \<open>
  C8: if some requested layer index lies outside the range from \<open>-(n+1)\<close> to \<open>n\<close>,
  the run ends with an error before the batch loop: its trace is empty, so the model
  was never called and nothing was saved. The error is the failed assertion, unless
  the model is an MSA Transformer, which is rejected even earlier.
\<close>

theorem invalid_layer_aborts_before_batches:
  assumes "i \<in> set (repr_layers a)" and "\<not> layer_in_range (num_layers e) i"
  shows "fst (run a e batches) = []
         \<and> snd (run a e batches) =
             Some (if is_MSATransformer e then MSA_ValueError else AssertionError)"
proof -
  have "\<not> list_all (layer_in_range (num_layers e)) (repr_layers a)"
    using assms by (auto simp: list_all_iff)
  then show ?thesis
    by (simp add: run_def resolve_layers_def)
qed

theorem invalid_layer_aborts_before_batches_witness:
  "run (example_args\<lparr>repr_layers := [- 1, 2]\<rparr>) example_env example_batches
     = ([], Some AssertionError)"
proof -
  have mem: "2 \<in> set (repr_layers (example_args\<lparr>repr_layers := [- 1, 2]\<rparr>))"
    by simp
  have bad: "\<not> layer_in_range (num_layers example_env) 2"
    by (simp add: layer_in_range_def example_env_def)
  have msa: "\<not> is_MSATransformer example_env"
    by (simp add: example_env_def)
  from invalid_layer_aborts_before_batches [OF mem bad, of example_batches] msa
  show ?thesis by (simp add: prod_eq_iff)
qed

section \<open>Per-sequence extraction\<close>

text \<open>
  C1: when \<open>per_tok\<close> is requested, the artifact of every layer is the slice of the
  sequence's activation row at positions 1 to \<open>t_i\<close> inclusive (position 0, the
  marker, is left out), and its length along the position axis is the minimum of the
  truncation length and the length of the sequence string. The truncation length is
  not negative, and the activation rows of the batch have the marker position and at
  least \<open>t_i\<close> positions after it.
\<close>

theorem per_tok_slice_positions:
  assumes ok: "extract_sequence a layers reprs contacts strs i label = Inr (p, r)"
    and req: "Per_tok \<in> set (include_arg a)"
    and nonneg: "0 \<le> truncation_seq_length a"
    and n_def: "n = nat (min (truncation_seq_length a) (int (length (strs ! i))))"
    and padded: "\<forall>(layer, t) \<in> set reprs. n + 1 \<le> length (t ! i)"
  shows "r_representations r =
           Some (map (\<lambda>(layer, t). (layer, map (\<lambda>pos. t ! i ! pos) [1..<Suc n])) reprs)
         \<and> (\<forall>(layer, x) \<in> set (the (r_representations r)).
              int (length x) = min (truncation_seq_length a) (int (length (strs ! i))))"
proof -
  from ok obtain s where s: "index_py strs i = Inr s"
    and pt: "requested (Per_tok \<in> set (include_arg a))
        (per_tok_slices (min (truncation_seq_length a) (int (length s))) i reprs)
       = Inr (r_representations r)"
    by (rule extract_sequence_Inr)
  from s have s_eq: "s = strs ! i" by (simp add: index_py_Inr_iff)
  let ?k = "min (truncation_seq_length a) (int (length s))"
  have k0: "0 \<le> ?k" using nonneg by simp
  have kn: "nat ?k = n" by (simp add: n_def s_eq)
  from pt req obtain x where x: "per_tok_slices ?k i reprs = Inr x"
    and rx: "r_representations r = Some x"
    by (auto simp: requested_Inr_iff)
  have "x = map (\<lambda>(layer, t). (layer, map (\<lambda>pos. t ! i ! pos) [1..<Suc n])) reprs"
  proof (rule dict_comp_eq_map [OF x [unfolded per_tok_slices_def]])
    fix layer t w
    assume mem: "(layer, t) \<in> set reprs" and w: "row_slice t i 1 (?k + 1) = Inr w"
    from padded mem have "nat ?k + 1 \<le> length (t ! i)" by (auto simp: kn)
    from slice_py_from_1 [OF k0 this] w
    show "w = map (\<lambda>pos. t ! i ! pos) [1..<Suc n]"
      by (simp add: row_slice_Inr_iff kn)
  qed
  then show ?thesis
    using rx k0 kn s_eq by auto
qed

theorem per_tok_slice_positions_witness:
  "r_representations example_result_0 =
     Some (map (\<lambda>(layer, t). (layer, map (\<lambda>pos. t ! 0 ! pos) [1..<Suc 2])) example_reprs)
   \<and> list_all (\<lambda>(layer, x). int (length x) =
         min (truncation_seq_length example_args) (int (length (example_strs ! 0))))
       (the (r_representations example_result_0))"
proof -
  have req: "Per_tok \<in> set (include_arg example_args)"
    by (simp add: example_args_def)
  have nonneg: "0 \<le> truncation_seq_length example_args"
    by (simp add: example_args_def)
  have n: "2 = nat (min (truncation_seq_length example_args)
                 (int (length (example_strs ! 0))))"
    by (simp add: example_args_def example_strs_def)
  have padded: "\<forall>(layer, t) \<in> set example_reprs. 2 + 1 \<le> length (t ! 0)"
    by (simp add: example_reprs_def example_t0_def example_t1_def)
  show ?thesis
    unfolding list_all_iff
    by (rule per_tok_slice_positions [OF example_extract_0 req nonneg n padded])
qed

text \<open>
  C5: when \<open>mean\<close> is requested, the artifact of every layer is the mean over the
  position axis of that layer's per-token slice (the slice that \<open>per_tok\<close> stores
  when it is requested too): feature by feature, the sum over the positions of the
  slice divided by their number. For a slice of one position it is that position.
\<close>

theorem mean_is_position_average:
  assumes ok: "extract_sequence a layers reprs contacts strs i label = Inr (p, r)"
    and req: "Mean \<in> set (include_arg a)"
    and k: "k = min (truncation_seq_length a) (int (length (strs ! i)))"
  shows "\<exists>pt. per_tok_slices k i reprs = Inr pt
           \<and> (Per_tok \<in> set (include_arg a) \<longrightarrow> r_representations r = Some pt)
           \<and> r_mean_representations r = Some (map (\<lambda>(layer, x). (layer, mean0 x)) pt)
           \<and> (\<forall>(layer, x) \<in> set pt.
                 (x \<noteq> [] \<longrightarrow>
                    (\<exists>v. mean0 x = Some v \<and> length v = length (hd x) \<and>
                       (\<forall>f<length v.
                          v ! f = (\<Sum>pos<length x. x ! pos ! f) / of_nat (length x))))
                 \<and> (length x = 1 \<longrightarrow> mean0 x = Some (x ! 0)))"
proof -
  from ok obtain s where s: "index_py strs i = Inr s"
    and pt: "requested (Per_tok \<in> set (include_arg a))
        (per_tok_slices (min (truncation_seq_length a) (int (length s))) i reprs)
       = Inr (r_representations r)"
    and mn: "requested (Mean \<in> set (include_arg a))
        (dict_comp (\<lambda>t. bind_result
             (row_slice t i 1 (min (truncation_seq_length a) (int (length s)) + 1))
             (\<lambda>x. Inr (mean0 x))) reprs) = Inr (r_mean_representations r)"
    by (rule extract_sequence_Inr)
  from s have k': "min (truncation_seq_length a) (int (length s)) = k"
    by (simp add: index_py_Inr_iff k)
  from mn req obtain m where
    m: "dict_comp (\<lambda>t. bind_result (row_slice t i 1 (k + 1)) (\<lambda>x. Inr (mean0 x))) reprs = Inr m"
    and rm: "r_mean_representations r = Some m"
    by (auto simp: requested_Inr_iff k')
  from dict_comp_post_ok [OF m] obtain x where x: "per_tok_slices k i reprs = Inr x"
    by (auto simp: per_tok_slices_def)
  have m_eq: "m = map (\<lambda>(layer, x). (layer, mean0 x)) x"
    by (rule dict_comp_post [OF x [unfolded per_tok_slices_def] m])
  have both: "Per_tok \<in> set (include_arg a) \<longrightarrow> r_representations r = Some x"
    using pt x by (auto simp: requested_Inr_iff k')
  have single: "length y = 1 \<longrightarrow> mean0 y = Some (y ! 0)" for y :: "'a tensor2"
    by (cases y) (auto simp: mean0_single)
  show ?thesis
    using x both rm m_eq mean0_nth single by blast
qed

theorem mean_is_position_average_witness:
  "\<exists>pt. per_tok_slices 1 1 example_reprs = Inr pt
     \<and> (Per_tok \<in> set (include_arg example_args) \<longrightarrow>
          r_representations example_result_1 = Some pt)
     \<and> r_mean_representations example_result_1 =
         Some (map (\<lambda>(layer, x). (layer, mean0 x)) pt)
     \<and> (\<forall>(layer, x) \<in> set pt.
           (x \<noteq> [] \<longrightarrow>
              (\<exists>v. mean0 x = Some v \<and> length v = length (hd x) \<and>
                 (\<forall>f<length v.
                    v ! f = (\<Sum>pos<length x. x ! pos ! f) / of_nat (length x))))
           \<and> (length x = 1 \<longrightarrow> mean0 x = Some (x ! 0)))"
proof -
  have req: "Mean \<in> set (include_arg example_args)"
    by (simp add: example_args_def)
  have k: "1 = min (truncation_seq_length example_args) (int (length (example_strs ! 1)))"
    by (simp add: example_args_def example_strs_def)
  show ?thesis
    by (rule mean_is_position_average [OF example_extract_1 req k])
qed

text \<open>
  C7: when \<open>bos\<close> is requested, the artifact of every layer is position 0 of the
  sequence's activation row, and the extraction does not use \<open>t_i\<close>: from the same
  activations it stores the same \<open>bos\<close> artifact for every value of
  \<open>truncation_seq_length\<close>.
\<close>

theorem bos_is_position_zero:
  assumes ok: "extract_sequence a layers reprs contacts strs i label = Inr (p, r)"
    and req: "Bos \<in> set (include_arg a)"
  shows "r_bos_representations r = Some (map (\<lambda>(layer, t). (layer, t ! i ! 0)) reprs)
         \<and> (\<forall>m p' r'.
               extract_sequence (a\<lparr>truncation_seq_length := m\<rparr>) layers reprs contacts
                 strs i label = Inr (p', r')
               \<longrightarrow> r_bos_representations r' = r_bos_representations r)"
proof -
  have bos: "r_bos_representations r' = Some (map (\<lambda>(layer, t). (layer, t ! i ! 0)) reprs)"
    if ok': "extract_sequence a' layers reprs contacts strs i label = Inr (p', r')"
      and req': "Bos \<in> set (include_arg a')" for a' p' r'
  proof -
    from ok' have "requested (Bos \<in> set (include_arg a'))
         (dict_comp (\<lambda>t. row_first t i) reprs) = Inr (r_bos_representations r')"
      by (rule extract_sequence_Inr)
    with req' obtain x where x: "dict_comp (\<lambda>t. row_first t i) reprs = Inr x"
      and rx: "r_bos_representations r' = Some x"
      by (auto simp: requested_Inr_iff)
    have "x = map (\<lambda>(layer, t). (layer, t ! i ! 0)) reprs"
      by (rule dict_comp_eq_map [OF x]) (simp add: row_first_Inr_iff)
    with rx show ?thesis by simp
  qed
  show ?thesis
    using bos [OF ok req] bos [of "a\<lparr>truncation_seq_length := _\<rparr>"] req by simp
qed

theorem bos_is_position_zero_witness:
  "r_bos_representations example_result_0 =
     Some (map (\<lambda>(layer, t). (layer, t ! 0 ! 0)) example_reprs)
   \<and> r_bos_representations example_result_0_short =
       r_bos_representations example_result_0"
proof -
  have req: "Bos \<in> set (include_arg example_args)"
    by (simp add: example_args_def)
  note bos = bos_is_position_zero [OF example_extract_0 req]
  from bos have first: "r_bos_representations example_result_0 =
      Some (map (\<lambda>(layer, t). (layer, t ! 0 ! 0)) example_reprs)"
    by (rule conjunct1)
  from bos example_extract_0_short
  have second: "r_bos_representations example_result_0_short =
      r_bos_representations example_result_0"
    by blast
  from first second show ?thesis by (rule conjI)
qed

text \<open>
  Between two runs that differ only in \<open>truncation_seq_length\<close> the artifact need not
  be the same: the batch converter truncates the tokens, so the model is called on
  different tokens and may return a different activation at position 0. For the
  sequence \<open>MKV\<close> the marker activation of layer 1 is 37 with truncation length 2
  and 22 with truncation length 1.
\<close>

theorem bos_varies_with_truncation:
  "run example_args_bos example_attention_env
     (data_loader example_converter example_args_bos example_dataset)
   = ([Processing 1 1, Forward [[0, 20, 15, 2]] [1] False,
       Save (Joined (Path ''out'') ''seq1_A.pt'')
         \<lparr>r_id = ''seq1'', r_label = ''A'', r_representations = None,
          r_avg_per_tok = None, r_mean_representations = None,
          r_bos_representations = Some [(1, [37])], r_contacts = None\<rparr>], None)
   \<and> run (example_args_bos\<lparr>truncation_seq_length := 1\<rparr>) example_attention_env
       (data_loader example_converter (example_args_bos\<lparr>truncation_seq_length := 1\<rparr>)
          example_dataset)
     = ([Processing 1 1, Forward [[0, 20, 2]] [1] False,
         Save (Joined (Path ''out'') ''seq1_A.pt'')
           \<lparr>r_id = ''seq1'', r_label = ''A'', r_representations = None,
            r_avg_per_tok = None, r_mean_representations = None,
            r_bos_representations = Some [(1, [22])], r_contacts = None\<rparr>], None)
   \<and> Some [(1 :: int, [37 :: rat])] \<noteq> Some [(1, [22])]"
  by code_simp

text \<open>
  C6: when contacts are requested, the artifact is the contact map of the sequence
  restricted to rows and columns 0 up to, but not including, \<open>t_i\<close>; it has exactly
  \<open>t_i\<close> rows and \<open>t_i\<close> columns, and when the contact map of the sequence has no
  further rows or columns, it is that whole map. The truncation length is not
  negative and the contact map has at least \<open>t_i\<close> rows and columns.
\<close>

theorem contacts_submatrix:
  assumes ok: "extract_sequence a layers reprs (Some c) strs i label = Inr (p, r)"
    and nonneg: "0 \<le> truncation_seq_length a"
    and n_def: "n = nat (min (truncation_seq_length a) (int (length (strs ! i))))"
    and rows: "n \<le> length (c ! i)"
    and cols: "\<forall>x<n. n \<le> length (c ! i ! x)"
  shows "\<exists>m. r_contacts r = Some m
           \<and> length m = n \<and> (\<forall>row \<in> set m. length row = n)
           \<and> (\<forall>x<n. \<forall>y<n. m ! x ! y = c ! i ! x ! y)
           \<and> (length (c ! i) = n \<and> (\<forall>row \<in> set (c ! i). length row = n) \<longrightarrow> m = c ! i)"
proof -
  from ok obtain s where s: "index_py strs i = Inr s"
    and ct: "(case Some c of None \<Rightarrow> Inr None
      | Some c \<Rightarrow> requested True
           (square_slice c i (min (truncation_seq_length a) (int (length s)))))
       = Inr (r_contacts r)"
    by (rule extract_sequence_Inr)
  let ?k = "min (truncation_seq_length a) (int (length s))"
  from s have kn: "nat ?k = n" by (simp add: index_py_Inr_iff n_def)
  have k0: "0 \<le> ?k" using nonneg by simp
  from ct have rc: "r_contacts r = Some (map (slice_py 0 ?k) (slice_py 0 ?k (c ! i)))"
    by (auto simp: requested_Inr_iff square_slice_Inr_iff)
  have outer: "slice_py 0 ?k (c ! i) = take n (c ! i)"
    using slice_py_from_0 [OF k0, of "c ! i"] rows by (simp add: kn)
  have inner: "slice_py 0 ?k (c ! i ! x) = take n (c ! i ! x)" if "x < n" for x
    using slice_py_from_0 [OF k0, of "c ! i ! x"] cols that by (simp add: kn)
  define m where "m = map (slice_py 0 ?k) (slice_py 0 ?k (c ! i))"
  have len: "length m = n" using rows by (simp add: m_def outer)
  have nth: "m ! x = take n (c ! i ! x)" if "x < n" for x
    using that rows inner [OF that] by (simp add: m_def outer)
  have rowlen: "\<forall>row \<in> set m. length row = n"
  proof
    fix row assume "row \<in> set m"
    then obtain x where "x < n" "row = m ! x"
      using len by (auto simp: in_set_conv_nth)
    then show "length row = n" using nth cols by simp
  qed
  have entries: "\<forall>x<n. \<forall>y<n. m ! x ! y = c ! i ! x ! y"
    using nth by simp
  have full: "m = c ! i" if "length (c ! i) = n" "\<forall>row \<in> set (c ! i). length row = n"
    using that len nth by (auto simp: list_eq_iff_nth_eq)
  show ?thesis
    using rc len rowlen entries full unfolding m_def by blast
qed

theorem contacts_submatrix_witness:
  "\<exists>m. r_contacts example_result_1 = Some m
     \<and> length m = 1 \<and> (\<forall>row \<in> set m. length row = 1)
     \<and> (\<forall>x<1. \<forall>y<1. m ! x ! y = example_contacts ! 1 ! x ! y)
     \<and> (length (example_contacts ! 1) = 1
          \<and> (\<forall>row \<in> set (example_contacts ! 1). length row = 1)
        \<longrightarrow> m = example_contacts ! 1)"
proof -
  have nonneg: "0 \<le> truncation_seq_length example_args"
    by (simp add: example_args_def)
  have n: "1 = nat (min (truncation_seq_length example_args)
                 (int (length (example_strs ! 1))))"
    by (simp add: example_args_def example_strs_def)
  have rows: "1 \<le> length (example_contacts ! 1)"
    by (simp add: example_contacts_def)
  have cols: "\<forall>x<1. 1 \<le> length (example_contacts ! 1 ! x)"
    by (simp add: example_contacts_def)
  show ?thesis
    by (rule contacts_submatrix [OF example_extract_1 nonneg n rows cols])
qed

section \<open>The batch window\<close>



section \<open>The label of a sequence\<close>



section \<open>Requested representation kinds\<close>

text \<open>
  C9: every saved result has an entry for a representation kind exactly when that
  kind was requested (per_tok is stored under \<open>representations\<close>). Kinds that were
  not requested cost nothing: the model is asked for contacts only when they were
  requested, and when none of per_tok, avg_per_tok, mean and bos is requested the
  result does not depend on the layer activations at all.
\<close>

theorem requested_kinds_only:
  assumes "Save p (r :: 'a::field result) \<in> set (fst (run a e batches))"
  shows "(r_representations r \<noteq> None \<longleftrightarrow> Per_tok \<in> set (include_arg a))
       \<and> (r_avg_per_tok r \<noteq> None \<longleftrightarrow> Avg_per_tok \<in> set (include_arg a))
       \<and> (r_mean_representations r \<noteq> None \<longleftrightarrow> Mean \<in> set (include_arg a))
       \<and> (r_bos_representations r \<noteq> None \<longleftrightarrow> Bos \<in> set (include_arg a))
       \<and> (r_contacts r \<noteq> None \<longleftrightarrow> Contacts \<in> set (include_arg a))
       \<and> (\<forall>toks ls rc. Forward toks ls rc \<in> set (fst (run a e batches))
             \<longrightarrow> rc = (Contacts \<in> set (include_arg a)))
       \<and> (Per_tok \<notin> set (include_arg a) \<and> Avg_per_tok \<notin> set (include_arg a)
            \<and> Mean \<notin> set (include_arg a) \<and> Bos \<notin> set (include_arg a)
          \<longrightarrow> (\<forall>layers reprs reprs' contacts strs i label.
                 extract_sequence a layers reprs contacts strs i label
                   = (extract_sequence a layers reprs' contacts strs i label
                        :: error + path \<times> 'a result)))"
proof -
  from run_Save [OF assms] obtain layers reprs contacts strs i label where
    c: "contacts \<noteq> None \<longleftrightarrow> Contacts \<in> set (include_arg a)"
    and ok: "extract_sequence a layers reprs contacts strs i label = Inr (p, r)"
    by blast
  note entries = extract_sequence_entries [OF ok]
  have fw: "\<forall>toks ls rc. Forward toks ls rc \<in> set (fst (run a e batches))
             \<longrightarrow> rc = (Contacts \<in> set (include_arg a))"
    using run_Forward by (intro allI impI)
  have skip: "Per_tok \<notin> set (include_arg a) \<and> Avg_per_tok \<notin> set (include_arg a)
            \<and> Mean \<notin> set (include_arg a) \<and> Bos \<notin> set (include_arg a)
          \<longrightarrow> (\<forall>layers reprs reprs' contacts strs i label.
                 extract_sequence a layers reprs contacts strs i label
                   = (extract_sequence a layers reprs' contacts strs i label
                        :: error + path \<times> 'a result))"
    using extract_sequence_ignores_reprs by blast
  from entries c fw skip show ?thesis
    by (simp only: simp_thms)
qed

theorem requested_kinds_only_witness:
  "Save (Joined (Path ''out'') ''seq1_A.pt'') example_result_mean_bos
     \<in> set (fst (run example_args_mean_bos example_env example_batches))
   \<and> r_representations example_result_mean_bos = None
   \<and> r_avg_per_tok example_result_mean_bos = None
   \<and> r_mean_representations example_result_mean_bos \<noteq> None
   \<and> r_bos_representations example_result_mean_bos \<noteq> None
   \<and> r_contacts example_result_mean_bos = None"
proof -
  have mem: "Save (Joined (Path ''out'') ''seq1_A.pt'') example_result_mean_bos
     \<in> set (fst (run example_args_mean_bos example_env example_batches))"
    by (simp add: example_run_mean_bos)
  have inc: "Per_tok \<notin> set (include_arg example_args_mean_bos)"
    "Avg_per_tok \<notin> set (include_arg example_args_mean_bos)"
    "Mean \<in> set (include_arg example_args_mean_bos)"
    "Bos \<in> set (include_arg example_args_mean_bos)"
    "Contacts \<notin> set (include_arg example_args_mean_bos)"
    by (simp_all add: example_args_mean_bos_def)
  from requested_kinds_only [OF mem] inc mem show ?thesis
    by (simp only: simp_thms)
qed

section \<open>The average over layers\<close>

text \<open>
  C2: \<open>avg_per_tok\<close> should be the elementwise mean of the per-token slices of the
  requested layers. The code divides the sum of the stacked slices by the length of
  the list of requested layers, not by the number of stacked slices. With the layers
  \<open>-1\<close> and \<open>1\<close> on a model with one layer, both resolve to layer 1, the model
  returns one activation, and the stored average is half of the only per-token slice.
  In general every entry of the stored array is the sum of the entries of the stacked
  slices divided by the length of that list (lemma \<open>avg_per_tok_entries\<close>).
\<close>

theorem avg_per_tok_duplicate_layers:
  "run example_args_duplicate example_env example_batches =
     ([Processing 1 1, Forward [[0, 20, 15, 2], [0, 20, 2, 1]] [1, 1] False,
       Save (Joined (Path ''out'') ''seq1_A.pt'')
         \<lparr>r_id = ''seq1'', r_label = ''A'',
          r_representations = Some [(1, [[4, 2], [2, 0]])],
          r_avg_per_tok = Some [[2, 1], [1, 0]],
          r_mean_representations = None, r_bos_representations = None,
          r_contacts = None\<rparr>,
       Save (Joined (Path ''out'') ''seq2_B.pt'')
         \<lparr>r_id = ''seq2'', r_label = ''B'',
          r_representations = Some [(1, [[3, 9]])],
          r_avg_per_tok = Some [[3 / 2, 9 / 2]],
          r_mean_representations = None, r_bos_representations = None,
          r_contacts = None\<rparr>], None)"
  by code_simp

end
